theory Spec2Isabelle
  imports Main
begin

section \<open>The crawl queue viewer (frontend/src/features/archived-items/crawl-queue.ts)\<close>

text \<open>
  The component \<open>CrawlQueue\<close> polls the queue endpoint of a crawl and renders the
  returned page of URLs. Its fields become a record, its methods functions on that
  record. Two things of the browser are taken as parameters of the model, since the
  repository only calls them:
  \<^item> \<open>compile :: string \<Rightarrow> 'rx option\<close> is \<open>new RegExp(x)\<close>: \<open>None\<close> when the
    constructor throws a SyntaxError, otherwise the compiled expression;
  \<^item> \<open>test :: 'rx \<Rightarrow> string \<Rightarrow> bool\<close> is \<open>rx.test(url)\<close>. The expressions are built
    without flags, so \<open>test\<close> keeps no \<open>lastIndex\<close> and is a function of its arguments.
\<close>

subsection \<open>Data\<close>

type_synonym Pages = "string list"

text \<open>\<open>ResponseData\<close>: what the queue endpoint answers.\<close>

record ResponseData =
  total :: int
  results :: Pages
  matched :: Pages

text \<open>\<open>AuthState\<close> is declared elsewhere; the component only hands it on to \<open>apiFetch\<close>.\<close>

type_synonym AuthState = string

text \<open>A value thrown by \<open>apiFetch\<close>, read by the component through \<open>.message\<close> only.\<close>

datatype Error = Error (message: string)

text \<open>
  The SyntaxError of \<open>new RegExp(x)\<close>, tagged with the source text \<open>x\<close> whose
  constructor threw it, so that the entry that failed can be told.
\<close>

datatype RegExpError = SyntaxError (pattern: string)

text \<open>The argument of \<open>notify\<close>.\<close>

record Toast =
  toast_message :: string
  variant :: string
  icon :: string

text \<open>
  The fields of the component. \<open>orgId\<close>, \<open>crawlId\<close>, \<open>authState\<close>, \<open>matchedTotal\<close>,
  \<open>queue\<close> and \<open>timerId\<close> may be undefined; \<open>exclusions\<close> is tested for truthiness by
  the code, so it may be undefined too. \<open>pageSize\<close> is a JavaScript number that starts at
  50 and only ever grows in steps of 50; it is modelled as a natural number, which is
  exact as long as it stays below \<open>2^53\<close>.
\<close>

record 'rx CrawlQueue =
  authState :: "AuthState option"
  orgId :: "string option"
  crawlId :: "string option"
  matchedTotal :: "int option"
  regex :: string
  exclusions :: "string list option"
  exclusionsRx :: "'rx list"
  queue :: "ResponseData option"
  isLoading :: bool
  pageSize :: nat
  timerId :: "nat option"

definition POLL_INTERVAL_SECONDS :: nat where
  "POLL_INTERVAL_SECONDS = 5"

text \<open>The field initialisers of the class.\<close>

definition initial :: "'rx CrawlQueue" where
  "initial = \<lparr> authState = None, orgId = None, crawlId = None, matchedTotal = None,
     regex = [], exclusions = Some [], exclusionsRx = [], queue = None,
     isLoading = False, pageSize = 50, timerId = None \<rparr>"

subsection \<open>Exclusion patterns: \<open>updated\<close> and \<open>isExcluded\<close>\<close>

text \<open>
  \<open>this.exclusions.map((x) => new RegExp(x))\<close>: the patterns are compiled from left to
  right; the first constructor that throws ends the \<open>map\<close> with its SyntaxError and no
  array is returned.
\<close>

fun map_RegExp :: "(string \<Rightarrow> 'rx option) \<Rightarrow> string list \<Rightarrow> RegExpError + 'rx list" where
  "map_RegExp compile [] = Inr []"
| "map_RegExp compile (x # xs) =
     (case compile x of
        None \<Rightarrow> Inl (SyntaxError x)
      | Some rx \<Rightarrow>
          (case map_RegExp compile xs of
             Inl e \<Rightarrow> Inl e
           | Inr rxs \<Rightarrow> Inr (rx # rxs)))"

text \<open>
  \<open>updated(changedProperties)\<close>. The result is the component after the call together
  with the exception that left it, if any: when \<open>map\<close> throws, the assignment to
  \<open>exclusionsRx\<close> is never reached.
\<close>

definition updated ::
  "(string \<Rightarrow> 'rx option) \<Rightarrow> string list \<Rightarrow> 'rx CrawlQueue \<Rightarrow> 'rx CrawlQueue \<times> RegExpError option" where
  "updated compile changedProperties this =
     (if ''exclusions'' \<in> set changedProperties then
        (case exclusions this of
           Some xs \<Rightarrow>
             (case map_RegExp compile xs of
                Inl e \<Rightarrow> (this, Some e)
              | Inr rxs \<Rightarrow> (this\<lparr>exclusionsRx := rxs\<rparr>, None))
         | None \<Rightarrow> (this\<lparr>exclusionsRx := []\<rparr>, None))
      else (this, None))"

text \<open>The loop of \<open>isExcluded\<close>: return true at the first expression that matches.\<close>

fun isExcluded_loop :: "('rx \<Rightarrow> string \<Rightarrow> bool) \<Rightarrow> 'rx list \<Rightarrow> string \<Rightarrow> bool" where
  "isExcluded_loop test [] url = False"
| "isExcluded_loop test (rx # rxs) url =
     (if test rx url then True else isExcluded_loop test rxs url)"

definition isExcluded :: "('rx \<Rightarrow> string \<Rightarrow> bool) \<Rightarrow> 'rx CrawlQueue \<Rightarrow> string \<Rightarrow> bool" where
  "isExcluded test this url = isExcluded_loop test (exclusionsRx this) url"

subsection \<open>Rendering: \<open>renderContent\<close>\<close>

text \<open>
  One \<open>btrix-numbered-list-item\<close>: the class and number of its marker, and the class,
  target and text of its link.
\<close>

record ListItem =
  marker_class :: string
  marker :: nat
  link_class :: string
  href :: string
  link_text :: string

text \<open>The two constants that the callback of \<open>results.map\<close> computes for a URL.\<close>

definition isMatch :: "ResponseData \<Rightarrow> string \<Rightarrow> bool" where
  "isMatch q url = list_ex (\<lambda>v. v = url) (matched q)"

definition isExcluded_item ::
  "('rx \<Rightarrow> string \<Rightarrow> bool) \<Rightarrow> 'rx CrawlQueue \<Rightarrow> ResponseData \<Rightarrow> string \<Rightarrow> bool" where
  "isExcluded_item test this q url = (\<not> isMatch q url \<and> isExcluded test this url)"

definition render_item ::
  "('rx \<Rightarrow> string \<Rightarrow> bool) \<Rightarrow> 'rx CrawlQueue \<Rightarrow> ResponseData \<Rightarrow> nat \<times> string \<Rightarrow> ListItem" where
  "render_item test this q = (\<lambda>(idx, url).
     \<lparr> marker_class = (if isMatch q url then ''text-red-600'' else ''''),
       marker = idx + 1,
       link_class =
         (if isMatch q url then ''text-red-500 hover:text-red-400''
          else if isExcluded_item test this q url
            then ''text-gray-500 hover:text-gray-400 line-through''
            else ''text-blue-500 hover:text-blue-400''),
       href = url,
       link_text = url \<rparr>)"

datatype Footer = EndOfQueue | LoadMoreButton

datatype Content = Spinner | NoPagesQueued | Nothing | QueueList "ListItem list" Footer

text \<open>
  \<open>renderContent\<close>. \<open>!this.queue?.total\<close> holds when there is no queue or its total is 0.
\<close>

definition renderContent :: "('rx \<Rightarrow> string \<Rightarrow> bool) \<Rightarrow> 'rx CrawlQueue \<Rightarrow> Content" where
  "renderContent test this =
     (if (case queue this of None \<Rightarrow> True | Some q \<Rightarrow> total q = 0) then
        (if isLoading this then Spinner else NoPagesQueued)
      else
        (case queue this of
           None \<Rightarrow> Nothing
         | Some q \<Rightarrow>
             QueueList
               (map (render_item test this q) (enumerate 0 (results q)))
               (if total q = int (length (results q)) then EndOfQueue else LoadMoreButton)))"

text \<open>How an entry is shown, read off the class of its link.\<close>

definition shown_matched :: "ListItem \<Rightarrow> bool" where
  "shown_matched item = (link_class item = ''text-red-500 hover:text-red-400'')"

definition shown_excluded :: "ListItem \<Rightarrow> bool" where
  "shown_excluded item = (link_class item = ''text-gray-500 hover:text-gray-400 line-through'')"

subsection \<open>Requests: \<open>loadMore\<close> and \<open>getQueue\<close>\<close>

text \<open>\<open>Number.prototype.toString\<close> on a non-negative integer: its decimal digits.\<close>

fun toString :: "nat \<Rightarrow> string" where
  "toString n =
     (if n < 10 then [''0123456789'' ! n]
      else toString (n div 10) @ [''0123456789'' ! (n mod 10)])"

declare toString.simps [simp del]

text \<open>A template literal prints an undefined value as \<open>undefined\<close>.\<close>

definition template :: "string option \<Rightarrow> string" where
  "template x = (case x of None \<Rightarrow> ''undefined'' | Some s \<Rightarrow> s)"

text \<open>
  What \<open>getQueue\<close> hands to \<open>apiFetch\<close>: the path, the entries of its
  \<open>URLSearchParams\<close> in order, and the credentials.
\<close>

record Request =
  path :: string
  params :: "(string \<times> string) list"
  auth :: "AuthState option"

definition getQueue :: "'rx CrawlQueue \<Rightarrow> Request" where
  "getQueue this =
     \<lparr> path = ''/orgs/'' @ template (orgId this) @ ''/crawls/'' @ template (crawlId this) @ ''/queue'',
       params = [(''offset'', ''0''), (''count'', toString (pageSize this)), (''regex'', regex this)],
       auth = authState this \<rparr>"

definition loadMore :: "'rx CrawlQueue \<Rightarrow> 'rx CrawlQueue" where
  "loadMore this = this\<lparr>pageSize := pageSize this + 50\<rparr>"

subsection \<open>The component in the browser: timers, requests in flight, callbacks\<close>

text \<open>
  \<open>fetchOnUpdate\<close> and \<open>fetchQueue\<close> are asynchronous: each runs up to its
  \<open>await this.getQueue()\<close>, and goes on when the answer arrives. The browser around
  the component is therefore part of the state: the queries that were sent and are not
  answered yet (each with the caller that waits for \<open>fetchQueue\<close>: \<open>fetchOnUpdate\<close>,
  which then resets \<open>isLoading\<close>, or the timer callback, which discards the promise),
  the timeouts that are armed (identifier and delay in milliseconds), the next timer
  identifier, the notifications shown, and the exceptions that left \<open>updated\<close>.
  \<open>await this.performUpdate\<close> awaits a value that is not a promise and resumes in the
  same microtask checkpoint, before any timer or answer is delivered; the model runs
  \<open>fetchOnUpdate\<close> from its first line to the sending of the query in one step.
\<close>

datatype Origin = FromUpdate | FromTimer

record 'rx World =
  el :: "'rx CrawlQueue"
  inflight :: "(Request \<times> Origin) list"
  timers :: "(nat \<times> nat) list"
  nextId :: nat
  toasts :: "Toast list"
  uncaught :: "RegExpError list"

definition start :: "'rx World" where
  "start = \<lparr> el = initial, inflight = [], timers = [], nextId = 1, toasts = [], uncaught = [] \<rparr>"

text \<open>
  \<open>window.clearInterval(id)\<close>. Timeouts and intervals share their identifiers, so it
  cancels the timeout \<open>id\<close>; it does nothing when \<open>id\<close> is undefined or names no
  armed timer.
\<close>

definition clearInterval :: "nat option \<Rightarrow> 'rx World \<Rightarrow> 'rx World" where
  "clearInterval tid w =
     (case tid of
        None \<Rightarrow> w
      | Some t \<Rightarrow> w\<lparr>timers := filter (\<lambda>(i, ms). i \<noteq> t) (timers w)\<rparr>)"

text \<open>\<open>window.setTimeout(callback, ms)\<close>: arms a timer and returns its fresh identifier.\<close>

definition setTimeout :: "nat \<Rightarrow> 'rx World \<Rightarrow> nat \<times> 'rx World" where
  "setTimeout ms w =
     (nextId w, w\<lparr>timers := timers w @ [(nextId w, ms)], nextId := Suc (nextId w)\<rparr>)"

definition notify :: "Toast \<Rightarrow> 'rx World \<Rightarrow> 'rx World" where
  "notify t w = w\<lparr>toasts := toasts w @ [t]\<rparr>"

definition fetch_failed :: Toast where
  "fetch_failed =
     \<lparr> toast_message = ''Sorry, couldn't fetch crawl queue at this time.'',
       variant = ''danger'',
       icon = ''exclamation-octagon'' \<rparr>"

text \<open>\<open>fetchQueue\<close> up to its \<open>await\<close>: the query is sent.\<close>

definition fetchQueue_call :: "Origin \<Rightarrow> 'rx World \<Rightarrow> 'rx World" where
  "fetchQueue_call origin w = w\<lparr>inflight := inflight w @ [(getQueue (el w), origin)]\<rparr>"

text \<open>
  \<open>fetchQueue\<close> from its \<open>await\<close> on: with an answer, the rest of the \<open>try\<close> block;
  with a thrown error, the \<open>catch\<close> block.
\<close>

definition fetchQueue_resume :: "Error + ResponseData \<Rightarrow> 'rx World \<Rightarrow> 'rx World" where
  "fetchQueue_resume answer w =
     (case answer of
        Inr data \<Rightarrow>
          (let w1 = w\<lparr>el := (el w)\<lparr>queue := Some data\<rparr>\<rparr>;
               (t, w2) = setTimeout (POLL_INTERVAL_SECONDS * 1000) w1
           in w2\<lparr>el := (el w2)\<lparr>timerId := Some t\<rparr>\<rparr>)
      | Inl e \<Rightarrow>
          (if message e \<noteq> ''invalid_regex'' then notify fetch_failed w else w))"

text \<open>\<open>fetchOnUpdate\<close> up to the \<open>await\<close> inside \<open>fetchQueue\<close>, and from there on.\<close>

definition fetchOnUpdate_call :: "'rx World \<Rightarrow> 'rx World" where
  "fetchOnUpdate_call w =
     (let w1 = clearInterval (timerId (el w)) w;
          w2 = w1\<lparr>el := (el w1)\<lparr>isLoading := True\<rparr>\<rparr>
      in fetchQueue_call FromUpdate w2)"

definition fetchOnUpdate_resume :: "'rx World \<Rightarrow> 'rx World" where
  "fetchOnUpdate_resume w = w\<lparr>el := (el w)\<lparr>isLoading := False\<rparr>\<rparr>"

definition willUpdate :: "string list \<Rightarrow> 'rx World \<Rightarrow> 'rx World" where
  "willUpdate changedProperties w =
     (if ''authState'' \<in> set changedProperties \<or>
         ''orgId'' \<in> set changedProperties \<or>
         ''crawlId'' \<in> set changedProperties \<or>
         ''pageSize'' \<in> set changedProperties \<or>
         ''regex'' \<in> set changedProperties
      then fetchOnUpdate_call w else w)"

definition disconnectedCallback :: "'rx World \<Rightarrow> 'rx World" where
  "disconnectedCallback w = clearInterval (timerId (el w)) w"

text \<open>
  One update cycle of the element for the changed properties: \<open>willUpdate\<close>, then
  (after rendering) \<open>updated\<close>; an exception of \<open>updated\<close> is recorded.
\<close>

definition performUpdate :: "(string \<Rightarrow> 'rx option) \<Rightarrow> string list \<Rightarrow> 'rx World \<Rightarrow> 'rx World" where
  "performUpdate compile changedProperties w =
     (let w1 = willUpdate changedProperties w;
          (c, err) = updated compile changedProperties (el w1)
      in w1\<lparr>el := c, uncaught := uncaught w1 @ (case err of None \<Rightarrow> [] | Some e \<Rightarrow> [e])\<rparr>)"

text \<open>The public properties a parent can set, with the value set.\<close>

datatype Property =
    P_authState "AuthState option"
  | P_orgId "string option"
  | P_crawlId "string option"
  | P_matchedTotal "int option"
  | P_regex string
  | P_exclusions "string list option"

fun key :: "Property \<Rightarrow> string" where
  "key (P_authState v) = ''authState''"
| "key (P_orgId v) = ''orgId''"
| "key (P_crawlId v) = ''crawlId''"
| "key (P_matchedTotal v) = ''matchedTotal''"
| "key (P_regex v) = ''regex''"
| "key (P_exclusions v) = ''exclusions''"

fun assign :: "Property \<Rightarrow> 'rx CrawlQueue \<Rightarrow> 'rx CrawlQueue" where
  "assign (P_authState v) this = this\<lparr>authState := v\<rparr>"
| "assign (P_orgId v) this = this\<lparr>orgId := v\<rparr>"
| "assign (P_crawlId v) this = this\<lparr>crawlId := v\<rparr>"
| "assign (P_matchedTotal v) this = this\<lparr>matchedTotal := v\<rparr>"
| "assign (P_regex v) this = this\<lparr>regex := v\<rparr>"
| "assign (P_exclusions v) this = this\<lparr>exclusions := v\<rparr>"

text \<open>
  What can happen to the component:
  \<^item> \<open>Changed ps\<close>: the parent has set the properties \<open>ps\<close> to new values, and the
    element runs one update cycle for them;
  \<^item> \<open>LoadMore\<close>: the button or the intersection observer calls \<open>loadMore\<close>, and the
    element runs one update cycle for \<open>pageSize\<close>;
  \<^item> \<open>Respond i answer\<close>: the \<open>i\<close>-th query in flight is answered, with data or with
    a thrown error;
  \<^item> \<open>TimerFire t\<close>: the armed timer \<open>t\<close> expires and its callback calls \<open>fetchQueue\<close>;
  \<^item> \<open>Disconnect\<close>: the element is removed from the document.
  An event that is not enabled (no such query, no such timer) changes nothing. The
  update cycles that follow a change of \<open>queue\<close>, \<open>isLoading\<close> or \<open>exclusionsRx\<close> run
  neither branch of \<open>willUpdate\<close> and \<open>updated\<close> and are left out.
\<close>

datatype Event =
    Changed "Property list"
  | LoadMore
  | Respond nat "Error + ResponseData"
  | TimerFire nat
  | Disconnect

fun step :: "(string \<Rightarrow> 'rx option) \<Rightarrow> Event \<Rightarrow> 'rx World \<Rightarrow> 'rx World" where
  "step compile (Changed ps) w =
     performUpdate compile (map key ps) (w\<lparr>el := fold assign ps (el w)\<rparr>)"
| "step compile LoadMore w =
     performUpdate compile [''pageSize''] (w\<lparr>el := loadMore (el w)\<rparr>)"
| "step compile (Respond i answer) w =
     (if i < length (inflight w) then
        (let origin = snd (inflight w ! i);
             w1 = w\<lparr>inflight := take i (inflight w) @ drop (Suc i) (inflight w)\<rparr>;
             w2 = fetchQueue_resume answer w1
         in (case origin of FromUpdate \<Rightarrow> fetchOnUpdate_resume w2 | FromTimer \<Rightarrow> w2))
      else w)"
| "step compile (TimerFire t) w =
     (if list_ex (\<lambda>(i, ms). i = t) (timers w) then
        fetchQueue_call FromTimer (w\<lparr>timers := filter (\<lambda>(i, ms). i \<noteq> t) (timers w)\<rparr>)
      else w)"
| "step compile Disconnect w = disconnectedCallback w"

definition run :: "(string \<Rightarrow> 'rx option) \<Rightarrow> Event list \<Rightarrow> 'rx World \<Rightarrow> 'rx World" where
  "run compile evs w = fold (step compile) evs w"

text \<open>
  An event that makes \<open>willUpdate\<close> call \<open>fetchOnUpdate\<close>, and a sequence of events
  in which this only happens while no query is in flight.
\<close>

fun refetches :: "Event \<Rightarrow> bool" where
  "refetches (Changed ps) =
     list_ex (\<lambda>p. key p \<in> set [''authState'', ''orgId'', ''crawlId'', ''pageSize'', ''regex'']) ps"
| "refetches LoadMore = True"
| "refetches e = False"



subsection \<open>The queue store behind the endpoint\<close>

text \<open>
  Modelled from the spec: the backend that answers
  \<open>GET /orgs/{orgId}/crawls/{crawlId}/queue\<close> is not among the source files. This is
  \<open>snapshot(crawlId, offset, count, pattern?)\<close> of the spec's Queue Store: the store
  maps a crawl to its URLs in insertion order; an unknown crawl fails with
  \<open>NotFound\<close>, a non-empty pattern that does not compile with \<open>InvalidPattern\<close>;
  \<open>total\<close> counts all queued URLs, \<open>results\<close> is the page \<open>[offset, offset + count)\<close>,
  and \<open>matched\<close> is, for a non-empty pattern, the list of all URLs of the queue that
  match it.
\<close>

datatype QueueError = InvalidPattern | NotFound

type_synonym QueueStore = "string \<Rightarrow> string list option"

definition snapshot ::
  "(string \<Rightarrow> 'rx option) \<Rightarrow> ('rx \<Rightarrow> string \<Rightarrow> bool) \<Rightarrow> QueueStore \<Rightarrow>
     string \<Rightarrow> nat \<Rightarrow> nat \<Rightarrow> string \<Rightarrow> QueueError + ResponseData" where
  "snapshot compile test store cid offset cnt pat =
     (case store cid of
        None \<Rightarrow> Inl NotFound
      | Some urls \<Rightarrow>
          (if pat = [] then
             Inr \<lparr> total = int (length urls), results = take cnt (drop offset urls), matched = [] \<rparr>
           else
             (case compile pat of
                None \<Rightarrow> Inl InvalidPattern
              | Some rx \<Rightarrow>
                  Inr \<lparr> total = int (length urls), results = take cnt (drop offset urls),
                        matched = filter (test rx) urls \<rparr>)))"

section \<open>Properties\<close>

subsection \<open>Auxiliary facts\<close>

lemmas world_defs = run_def start_def initial_def performUpdate_def willUpdate_def updated_def
  fetchOnUpdate_call_def fetchOnUpdate_resume_def fetchQueue_call_def fetchQueue_resume_def
  clearInterval_def setTimeout_def notify_def getQueue_def template_def loadMore_def
  disconnectedCallback_def POLL_INTERVAL_SECONDS_def Let_def

lemma isExcluded_loop_iff: "isExcluded_loop test rxs url \<longleftrightarrow> (\<exists>rx\<in>set rxs. test rx url)"
  by (induction rxs) auto

lemma isMatch_iff: "isMatch q url \<longleftrightarrow> url \<in> set (matched q)"
  by (auto simp: isMatch_def list_ex_iff)

lemma render_item_regex: "render_item test (this\<lparr>regex := r\<rparr>) q = render_item test this q"
  by (simp add: render_item_def isExcluded_item_def isExcluded_def fun_eq_iff)

lemma map_RegExp_find_Some:
  "find (\<lambda>x. compile x = None) xs = Some bad \<Longrightarrow> map_RegExp compile xs = Inl (SyntaxError bad)"
  by (induction xs) (auto split: option.splits sum.splits if_splits)

lemma map_RegExp_find_None:
  "find (\<lambda>x. compile x = None) xs = None \<Longrightarrow>
     \<exists>rxs. map_RegExp compile xs = Inr rxs \<and> map Some rxs = map compile xs"
  by (induction xs) (auto split: option.splits sum.splits if_splits)

lemma timerId_fold_assign: "timerId (fold assign ps this) = timerId this"
proof (induction ps arbitrary: this)
  case Nil
  show ?case by simp
next
  case (Cons p ps)
  show ?case by (cases p) (simp_all add: Cons.IH)
qed

lemma updated_fields:
  "timerId (fst (updated compile ch this)) = timerId this"
  "pageSize (fst (updated compile ch this)) = pageSize this"
  "queue (fst (updated compile ch this)) = queue this"
  "regex (fst (updated compile ch this)) = regex this"
  "orgId (fst (updated compile ch this)) = orgId this"
  "crawlId (fst (updated compile ch this)) = crawlId this"
  "authState (fst (updated compile ch this)) = authState this"
  by (simp_all add: updated_def split: option.splits sum.splits)

lemma getQueue_updated: "getQueue (fst (updated compile ch this)) = getQueue this"
  by (simp add: getQueue_def updated_fields)

lemma getQueue_isLoading: "getQueue (this\<lparr>isLoading := b\<rparr>) = getQueue this"
  by (simp add: getQueue_def)

lemma performUpdate_parts:
  "inflight (performUpdate compile ch w) = inflight (willUpdate ch w)"
  "timers (performUpdate compile ch w) = timers (willUpdate ch w)"
  "el (performUpdate compile ch w) = fst (updated compile ch (el (willUpdate ch w)))"
  by (simp_all add: performUpdate_def Let_def split: prod.splits)

lemma refetches_Changed:
  "refetches (Changed ps) \<longleftrightarrow>
     (''authState'' \<in> set (map key ps) \<or> ''orgId'' \<in> set (map key ps) \<or>
      ''crawlId'' \<in> set (map key ps) \<or> ''pageSize'' \<in> set (map key ps) \<or>
      ''regex'' \<in> set (map key ps))"
  by (induction ps) auto

lemma willUpdate_refetch:
  "refetches (Changed ps) \<Longrightarrow> willUpdate (map key ps) w = fetchOnUpdate_call w"
  "\<not> refetches (Changed ps) \<Longrightarrow> willUpdate (map key ps) w = w"
  unfolding refetches_Changed willUpdate_def by simp_all

lemma clearInterval_parts:
  "timers (clearInterval (timerId (el w)) w) =
     filter (\<lambda>(i, ms). Some i \<noteq> timerId (el w)) (timers w)"
  "inflight (clearInterval tid w) = inflight w"
  "el (clearInterval tid w) = el w"
  by (auto simp: clearInterval_def split: option.splits intro: filter_cong)

lemma fetchOnUpdate_call_parts:
  "inflight (fetchOnUpdate_call w) = inflight w @ [(getQueue (el w), FromUpdate)]"
  "timers (fetchOnUpdate_call w) = filter (\<lambda>(i, ms). Some i \<noteq> timerId (el w)) (timers w)"
  "el (fetchOnUpdate_call w) = (el w)\<lparr>isLoading := True\<rparr>"
  by (simp_all add: fetchOnUpdate_call_def fetchQueue_call_def clearInterval_parts Let_def
      getQueue_isLoading)

lemma step_LoadMore_parts:
  "pageSize (el (step compile LoadMore w)) = pageSize (el w) + 50"
  "regex (el (step compile LoadMore w)) = regex (el w)"
  "inflight (step compile LoadMore w) =
     inflight w @ [(getQueue (el (step compile LoadMore w)), FromUpdate)]"
  by (simp_all add: performUpdate_parts willUpdate_def fetchOnUpdate_call_parts updated_fields
      getQueue_updated getQueue_isLoading loadMore_def)

lemma run_snoc: "run compile (es @ [e]) w = step compile e (run compile es w)"
  by (simp add: run_def)

lemma run_LoadMore_fields:
  "pageSize (el (run compile (replicate n LoadMore) w)) = pageSize (el w) + 50 * n \<and>
   regex (el (run compile (replicate n LoadMore) w)) = regex (el w)"
proof (induction n)
  case 0
  show ?case by (simp add: run_def)
next
  case (Suc n)
  have "replicate (Suc n) LoadMore = replicate n LoadMore @ [LoadMore]"
    by (simp add: replicate_append_same)
  then have "run compile (replicate (Suc n) LoadMore) w
      = step compile LoadMore (run compile (replicate n LoadMore) w)"
    by (simp only: run_snoc)
  with Suc show ?case by (simp add: step_LoadMore_parts del: step.simps)
qed

text \<open>\<open>toString\<close> writes the decimal digits: reading them back gives the number.\<close>

lemma digit_of_char: "d < 10 \<Longrightarrow> of_char (''0123456789'' ! d) = (48 + d :: nat)"
proof -
  assume "d < 10"
  then have "d \<in> {0, 1, 2, 3, 4, 5, 6, 7, 8, 9}" by auto
  then show ?thesis by auto
qed

lemma toString_decimal: "foldl (\<lambda>a c. 10 * a + (of_char c - 48)) 0 (toString n) = n"
proof (induction n rule: toString.induct)
  case (1 n)
  show ?case
  proof (cases "n < 10")
    case True
    then show ?thesis
      by (subst toString.simps) (simp add: digit_of_char)
  next
    case False
    have "n mod 10 < 10" by simp
    with False 1 show ?thesis
      by (subst toString.simps) (simp add: digit_of_char del: nth_Cons_numeral)
  qed
qed

lemma toString_inject: "toString m = toString n \<Longrightarrow> m = n"
  by (metis toString_decimal)




text \<open>With nothing in flight and no timer armed, only a refetching event starts a poll.\<close>

lemma step_idle:
  assumes "\<not> refetches e" and "inflight w = []" and "timers w = []"
  shows "inflight (step compile e w) = [] \<and> timers (step compile e w) = []"
proof (cases e)
  case (Changed ps)
  with assms show ?thesis
    by (simp add: performUpdate_parts willUpdate_refetch del: refetches.simps)
next
  case LoadMore
  with assms show ?thesis by simp
next
  case (Respond i answer)
  with assms show ?thesis by simp
next
  case (TimerFire t)
  with assms show ?thesis by simp
next
  case Disconnect
  with assms show ?thesis
    by (simp add: disconnectedCallback_def clearInterval_parts)
qed

lemma run_idle:
  "list_all (\<lambda>e. \<not> refetches e) evs \<Longrightarrow> inflight w = [] \<Longrightarrow> timers w = [] \<Longrightarrow>
     inflight (run compile evs w) = [] \<and> timers (run compile evs w) = []"
proof (induction evs arbitrary: w)
  case Nil
  then show ?case by (simp add: run_def)
next
  case (Cons e es)
  from Cons.prems have "\<not> refetches e" and es: "list_all (\<lambda>e. \<not> refetches e) es"
    by simp_all
  from step_idle[OF this(1) Cons.prems(2,3), of compile]
  have "inflight (step compile e w) = []" "timers (step compile e w) = []"
    by simp_all
  from Cons.IH[OF es this] show ?case
    by (simp add: run_def)
qed

subsection \<open>Errors of a poll\<close>

text \<open>
  C1. When a query in flight fails with an error \<open>e\<close>, the \<open>catch\<close> block of
  \<open>fetchQueue\<close> shows no notification exactly when \<open>e.message\<close> is \<open>invalid_regex\<close>,
  and shows the notification for every other error; in both cases the queue snapshot
  held before is kept.
\<close>

theorem fetchQueue_error_keeps_snapshot:
  assumes "i < length (inflight w)"
  shows "queue (el (step compile (Respond i (Inl e)) w)) = queue (el w) \<and>
     (message e = ''invalid_regex'' \<longrightarrow>
        toasts (step compile (Respond i (Inl e)) w) = toasts w) \<and>
     (message e \<noteq> ''invalid_regex'' \<longrightarrow>
        toasts (step compile (Respond i (Inl e)) w) = toasts w @ [fetch_failed])"
  using assms
  by (auto simp: fetchQueue_resume_def fetchOnUpdate_resume_def notify_def Let_def
      split: Origin.splits)

text \<open>
  A first query is answered, its timer fires, and the poll it starts fails: with
  \<open>invalid_regex\<close> silently, with a network error noisily, the first answer kept.
\<close>

theorem fetchQueue_error_keeps_snapshot_witness:
  "let d = \<lparr>total = 1, results = [''https://a.example/''], matched = []\<rparr>;
       w = run Some [Changed [P_crawlId (Some ''c1'')], Respond 0 (Inr d), TimerFire 1]
             (start :: string World)
   in length (inflight w) = 1 \<and>
      queue (el (step Some (Respond 0 (Inl (Error ''invalid_regex''))) w)) = Some d \<and>
      toasts (step Some (Respond 0 (Inl (Error ''invalid_regex''))) w) = [] \<and>
      queue (el (step Some (Respond 0 (Inl (Error ''Failed to fetch''))) w)) = Some d \<and>
      toasts (step Some (Respond 0 (Inl (Error ''Failed to fetch''))) w) = [fetch_failed]"
proof -
  have h: "0 < length (inflight (run Some
      [Changed [P_crawlId (Some ''c1'')],
       Respond 0 (Inr \<lparr>total = 1, results = [''https://a.example/''], matched = []\<rparr>),
       TimerFire 1] (start :: string World)))"
    by (simp add: world_defs)
  show ?thesis
    using fetchQueue_error_keeps_snapshot[OF h, of Some "Error ''invalid_regex''"]
      fetchQueue_error_keeps_snapshot[OF h, of Some "Error ''Failed to fetch''"]
    by (simp add: world_defs)
qed

subsection \<open>Changes while a query is in flight\<close>

text \<open>
  C2, as stated, fails. The crawl is switched from \<open>a\<close> to \<open>b\<close> while the query
  for \<open>a\<close> is in flight: both queries are in flight together, and the answer for \<open>a\<close>
  is stored in \<open>queue\<close> although \<open>crawlId\<close> is \<open>b\<close>.
\<close>

theorem stale_response_is_applied:
  "let d = \<lparr>total = 1, results = [''https://a.example/''], matched = []\<rparr>;
       w = run Some [Changed [P_crawlId (Some ''a'')], Changed [P_crawlId (Some ''b'')]]
             (start :: string World)
   in map (path \<circ> fst) (inflight w) =
        [''/orgs/undefined/crawls/a/queue'', ''/orgs/undefined/crawls/b/queue''] \<and>
      crawlId (el (step Some (Respond 0 (Inr d)) w)) = Some ''b'' \<and>
      queue (el (step Some (Respond 0 (Inr d)) w)) = Some d"
  by (simp add: world_defs)

text \<open>
  C2, amended. A change of \<open>authState\<close>, \<open>orgId\<close>, \<open>crawlId\<close>, \<open>regex\<close> or of the
  page size cancels the timer that \<open>timerId\<close> names and sends a new query with the
  current values at once; the queries already in flight stay in flight, and the answer
  to any of them, when it arrives, is stored in \<open>queue\<close>.
\<close>

theorem change_cancels_timer_only:
  "(refetches e \<longrightarrow>
      inflight (step compile e w) =
        inflight w @ [(getQueue (el (step compile e w)), FromUpdate)] \<and>
      timers (step compile e w) = filter (\<lambda>(i, ms). Some i \<noteq> timerId (el w)) (timers w)) \<and>
   (i < length (inflight w) \<longrightarrow>
      queue (el (step compile (Respond i (Inr d)) w)) = Some d)"
proof (rule conjI; rule impI)
  assume r: "refetches e"
  show "inflight (step compile e w) =
          inflight w @ [(getQueue (el (step compile e w)), FromUpdate)] \<and>
        timers (step compile e w) = filter (\<lambda>(i, ms). Some i \<noteq> timerId (el w)) (timers w)"
  proof (cases e)
    case (Changed ps)
    with r show ?thesis
      by (simp add: performUpdate_parts willUpdate_refetch fetchOnUpdate_call_parts
          getQueue_updated getQueue_isLoading timerId_fold_assign del: refetches.simps)
  next
    case LoadMore
    then show ?thesis
      by (simp add: performUpdate_parts willUpdate_def fetchOnUpdate_call_parts
          getQueue_updated getQueue_isLoading loadMore_def)
  qed (use r in simp_all)
next
  assume "i < length (inflight w)"
  then show "queue (el (step compile (Respond i (Inr d)) w)) = Some d"
    by (simp add: fetchQueue_resume_def fetchOnUpdate_resume_def setTimeout_def Let_def
        split: Origin.splits)
qed

text \<open>
  With a timer armed after a first answer, a new \<open>regex\<close> cancels it and sends one
  query; with the query for \<open>a\<close> still in flight, the new \<open>regex\<close> adds a second one,
  and the answer to the first is stored.
\<close>

theorem change_cancels_timer_only_witness:
  "let d = \<lparr>total = 1, results = [''https://a.example/''], matched = []\<rparr>;
       w0 = run Some [Changed [P_crawlId (Some ''a'')]] (start :: string World);
       w1 = step Some (Respond 0 (Inr d)) w0
   in timers w1 = [(1, 5000)] \<and>
      timers (step Some (Changed [P_regex ''x'']) w1) = [] \<and>
      map (params \<circ> fst) (inflight (step Some (Changed [P_regex ''x'']) w1)) =
        [[(''offset'', ''0''), (''count'', ''50''), (''regex'', ''x'')]] \<and>
      length (inflight (step Some (Changed [P_regex ''x'']) w0)) = 2 \<and>
      queue (el (step Some (Respond 0 (Inr d)) (step Some (Changed [P_regex ''x'']) w0))) = Some d"
proof -
  have r: "refetches (Changed [P_regex ''x''])"
    by simp
  have h: "0 < length (inflight (step Some (Changed [P_regex ''x''])
      (run Some [Changed [P_crawlId (Some ''a'')]] (start :: string World))))"
    by (simp add: world_defs)
  show ?thesis
    using change_cancels_timer_only[of "Changed [P_regex ''x'']" Some
        "step Some (Respond 0 (Inr \<lparr>total = 1, results = [''https://a.example/''], matched = []\<rparr>))
           (run Some [Changed [P_crawlId (Some ''a'')]] (start :: string World))" 0]
      change_cancels_timer_only[of "Changed [P_regex ''x'']" Some
        "step Some (Changed [P_regex ''x''])
           (run Some [Changed [P_crawlId (Some ''a'')]] (start :: string World))" 0
        "\<lparr>total = 1, results = [''https://a.example/''], matched = []\<rparr>"]
      r h
    by (simp add: world_defs toString.simps)
qed

subsection \<open>Polling after a failure\<close>

text \<open>
  C3, as stated, fails. The only query in flight fails with a network error: the
  notification is shown, and afterwards no timer is armed and no query is in flight,
  so no further poll will happen on its own.
\<close>

theorem failed_poll_not_rearmed:
  "let w = run Some [Changed [P_crawlId (Some ''c1'')], Respond 0 (Inl (Error ''Failed to fetch''))]
             (start :: string World)
   in timers w = [] \<and> inflight w = [] \<and> toasts w = [fetch_failed]"
  by (simp add: world_defs)

text \<open>
  C3, amended. A poll that fails, with whatever error, arms no timer: the timers and
  \<open>timerId\<close> are as before and the failed query is no longer in flight. A poll that
  succeeds arms the next one, at the poll interval of 5 seconds. When the failed query
  was the only poll under way (the only query in flight, no timer armed), no query is
  in flight and no timer is armed afterwards, and this stays so through every sequence
  of events in which \<open>authState\<close>, \<open>orgId\<close>, \<open>crawlId\<close>, \<open>regex\<close> and the page
  size do not change.
\<close>

theorem poll_rearmed_on_success_only:
  assumes "i < length (inflight w)"
  shows "timers (step compile (Respond i (Inl e)) w) = timers w \<and>
         timerId (el (step compile (Respond i (Inl e)) w)) = timerId (el w) \<and>
         inflight (step compile (Respond i (Inl e)) w) =
           take i (inflight w) @ drop (Suc i) (inflight w) \<and>
         timers (step compile (Respond i (Inr d)) w) =
           timers w @ [(nextId w, POLL_INTERVAL_SECONDS * 1000)] \<and>
         timerId (el (step compile (Respond i (Inr d)) w)) = Some (nextId w) \<and>
         (length (inflight w) = 1 \<and> timers w = [] \<and> list_all (\<lambda>ev. \<not> refetches ev) evs \<longrightarrow>
            inflight (run compile evs (step compile (Respond i (Inl e)) w)) = [] \<and>
            timers (run compile evs (step compile (Respond i (Inl e)) w)) = [])"
proof -
  from assms have one:
    "timers (step compile (Respond i (Inl e)) w) = timers w \<and>
     timerId (el (step compile (Respond i (Inl e)) w)) = timerId (el w) \<and>
     inflight (step compile (Respond i (Inl e)) w) =
       take i (inflight w) @ drop (Suc i) (inflight w) \<and>
     timers (step compile (Respond i (Inr d)) w) =
       timers w @ [(nextId w, POLL_INTERVAL_SECONDS * 1000)] \<and>
     timerId (el (step compile (Respond i (Inr d)) w)) = Some (nextId w)"
    by (simp add: fetchQueue_resume_def fetchOnUpdate_resume_def setTimeout_def notify_def Let_def
        split: Origin.splits)
  have "inflight (run compile evs (step compile (Respond i (Inl e)) w)) = [] \<and>
        timers (run compile evs (step compile (Respond i (Inl e)) w)) = []"
    if alone: "length (inflight w) = 1" "timers w = []"
      and calm: "list_all (\<lambda>ev. \<not> refetches ev) evs"
  proof -
    from assms alone(1) have "i = 0" by simp
    with one alone have "inflight (step compile (Respond i (Inl e)) w) = []"
      "timers (step compile (Respond i (Inl e)) w) = []"
      by (simp_all del: step.simps)
    from run_idle[OF calm this] show ?thesis .
  qed
  with one show ?thesis by blast
qed

text \<open>
  The first query of a session fails: nothing is in flight or armed, and a timer event
  with no timer armed, an answer with no query in flight, new exclusion patterns and
  a disconnect leave it so; had the query succeeded, timer 1 would be armed for 5000 ms.
\<close>

theorem poll_rearmed_on_success_only_witness:
  "let d = \<lparr>total = 1, results = [''https://a.example/''], matched = []\<rparr>;
       w = run Some [Changed [P_crawlId (Some ''c1'')]] (start :: string World);
       evs = [TimerFire 1, Respond 0 (Inr d), Changed [P_exclusions (Some [''ads''])], Disconnect]
   in length (inflight w) = 1 \<and>
      timers w = [] \<and>
      list_all (\<lambda>ev. \<not> refetches ev) evs \<and>
      timers (step Some (Respond 0 (Inl (Error ''Failed to fetch''))) w) = [] \<and>
      inflight (step Some (Respond 0 (Inl (Error ''Failed to fetch''))) w) = [] \<and>
      inflight (run Some evs (step Some (Respond 0 (Inl (Error ''Failed to fetch''))) w)) = [] \<and>
      timers (run Some evs (step Some (Respond 0 (Inl (Error ''Failed to fetch''))) w)) = [] \<and>
      timers (step Some (Respond 0 (Inr d)) w) = [(1, 5000)] \<and>
      timerId (el (step Some (Respond 0 (Inr d)) w)) = Some 1"
proof -
  define d where "d = \<lparr>total = 1, results = [''https://a.example/''], matched = []\<rparr>"
  define w where "w = run Some [Changed [P_crawlId (Some ''c1'')]] (start :: string World)"
  define evs where
    "evs = [TimerFire 1, Respond 0 (Inr d), Changed [P_exclusions (Some [''ads''])], Disconnect]"
  have h: "0 < length (inflight w)" and l: "length (inflight w) = 1" and t: "timers w = []"
    and n: "nextId w = 1"
    by (simp_all add: w_def world_defs)
  have c: "list_all (\<lambda>ev. \<not> refetches ev) evs"
    by (simp add: evs_def)
  from poll_rearmed_on_success_only[OF h, of Some "Error ''Failed to fetch''" d evs] l t c n
  have "timers (step Some (Respond 0 (Inl (Error ''Failed to fetch''))) w) = [] \<and>
      inflight (step Some (Respond 0 (Inl (Error ''Failed to fetch''))) w) = [] \<and>
      inflight (run Some evs (step Some (Respond 0 (Inl (Error ''Failed to fetch''))) w)) = [] \<and>
      timers (run Some evs (step Some (Respond 0 (Inl (Error ''Failed to fetch''))) w)) = [] \<and>
      timers (step Some (Respond 0 (Inr d)) w) = [(1, 5000)] \<and>
      timerId (el (step Some (Respond 0 (Inr d)) w)) = Some 1"
    by (simp add: POLL_INTERVAL_SECONDS_def del: step.simps)
  with l t c show ?thesis
    unfolding Let_def d_def[symmetric] w_def[symmetric] evs_def[symmetric] by simp
qed

subsection \<open>Sequential polls\<close>




subsection \<open>Display of an entry\<close>

text \<open>
  C5. Among the entries that \<open>renderContent\<close> lists, none is shown both as matched
  and as excluded, and an entry whose URL is in the \<open>matched\<close> array of the answer
  is shown as matched and not as excluded, whatever the exclusion patterns say.
\<close>

theorem matched_never_excluded:
  assumes "queue this = Some q"
    and "renderContent test this = QueueList items footer"
    and "item \<in> set items"
  shows "\<not> (shown_matched item \<and> shown_excluded item) \<and>
         (href item \<in> set (matched q) \<longrightarrow> shown_matched item \<and> \<not> shown_excluded item)"
  using assms
  by (auto simp: renderContent_def render_item_def shown_matched_def shown_excluded_def
      isMatch_iff split: if_splits)

text \<open>
  The third URL is matched by the server and by the exclusion pattern: it is shown
  as matched. The second is excluded only.
\<close>

theorem matched_never_excluded_witness:
  "let q = \<lparr>total = 3,
             results = [''https://a.com'', ''https://ads.com/2'', ''https://ads.com/1''],
             matched = [''https://ads.com/1'']\<rparr>;
       this = (initial :: string CrawlQueue)\<lparr>queue := Some q, exclusionsRx := [''https://ads.'']\<rparr>;
       test = (\<lambda>rx url. take (length rx) url = rx);
       item = \<lparr>marker_class = ''text-red-600'', marker = 3,
                link_class = ''text-red-500 hover:text-red-400'',
                href = ''https://ads.com/1'', link_text = ''https://ads.com/1''\<rparr>
   in renderContent test this =
        QueueList
          [\<lparr>marker_class = [], marker = 1, link_class = ''text-blue-500 hover:text-blue-400'',
             href = ''https://a.com'', link_text = ''https://a.com''\<rparr>,
           \<lparr>marker_class = [], marker = 2,
             link_class = ''text-gray-500 hover:text-gray-400 line-through'',
             href = ''https://ads.com/2'', link_text = ''https://ads.com/2''\<rparr>,
           item]
          EndOfQueue \<and>
      isExcluded test this (href item) \<and>
      shown_matched item \<and> \<not> shown_excluded item"
proof -
  define q where "q = \<lparr>total = 3,
      results = [''https://a.com'', ''https://ads.com/2'', ''https://ads.com/1''],
      matched = [''https://ads.com/1'']\<rparr>"
  define this where
    "this = (initial :: string CrawlQueue)\<lparr>queue := Some q, exclusionsRx := [''https://ads.'']\<rparr>"
  define test where "test = (\<lambda>rx url :: string. take (length rx) url = rx)"
  define item where "item = \<lparr>marker_class = ''text-red-600'', marker = 3,
      link_class = ''text-red-500 hover:text-red-400'',
      href = ''https://ads.com/1'', link_text = ''https://ads.com/1''\<rparr>"
  have r: "renderContent test this =
      QueueList
        [\<lparr>marker_class = [], marker = 1, link_class = ''text-blue-500 hover:text-blue-400'',
           href = ''https://a.com'', link_text = ''https://a.com''\<rparr>,
         \<lparr>marker_class = [], marker = 2,
           link_class = ''text-gray-500 hover:text-gray-400 line-through'',
           href = ''https://ads.com/2'', link_text = ''https://ads.com/2''\<rparr>,
         item]
        EndOfQueue"
    by (simp add: renderContent_def render_item_def isMatch_def isExcluded_item_def
        isExcluded_def initial_def enumerate_eq_zip upt_rec this_def q_def test_def item_def)
  have qu: "queue this = Some q"
    by (simp add: this_def)
  have m: "href item \<in> set (matched q)"
    by (simp add: item_def q_def)
  have x: "isExcluded test this (href item)"
    by (simp add: isExcluded_def this_def test_def item_def)
  from matched_never_excluded[OF qu r, of item] m
  have "shown_matched item \<and> \<not> shown_excluded item"
    by simp
  with r x show ?thesis
    unfolding Let_def q_def[symmetric] this_def[symmetric] test_def[symmetric] item_def[symmetric]
    by simp
qed

text \<open>
  C10. Whether a listed entry is highlighted as a match (the red class of its link
  and of its marker) is decided by the membership of its URL, compared for equality,
  in the \<open>matched\<close> array of the answer; the \<open>regex\<close> property plays no part in what
  \<open>renderContent\<close> shows.
\<close>

theorem highlight_by_membership:
  assumes "queue this = Some q"
    and "renderContent test this = QueueList items footer"
    and "i < length items"
  shows "(shown_matched (items ! i) \<longleftrightarrow> results q ! i \<in> set (matched q)) \<and>
         (marker_class (items ! i) = ''text-red-600'' \<longleftrightarrow> results q ! i \<in> set (matched q)) \<and>
         href (items ! i) = results q ! i \<and>
         renderContent test (this\<lparr>regex := r\<rparr>) = renderContent test this"
proof -
  from assms have items: "items = map (render_item test this q) (enumerate 0 (results q))"
    by (auto simp: renderContent_def split: if_splits)
  with assms(3) have i: "i < length (results q)" by simp
  from items i have "items ! i = render_item test this q (i, results q ! i)"
    by (simp add: nth_enumerate_eq)
  then have "(shown_matched (items ! i) \<longleftrightarrow> results q ! i \<in> set (matched q))"
    "(marker_class (items ! i) = ''text-red-600'' \<longleftrightarrow> results q ! i \<in> set (matched q))"
    "href (items ! i) = results q ! i"
    by (simp_all add: render_item_def shown_matched_def isMatch_iff)
  moreover have "renderContent test (this\<lparr>regex := r\<rparr>) = renderContent test this"
    by (simp add: renderContent_def render_item_regex split: option.splits)
  ultimately show ?thesis by simp
qed

text \<open>
  With \<open>regex\<close> set to \<open>ads\<close> and an answer whose \<open>matched\<close> array holds only the
  second of two URLs that contain \<open>ads\<close>, only the second is highlighted.
\<close>

theorem highlight_by_membership_witness:
  "let q = \<lparr>total = 2, results = [''https://ads.com/1'', ''https://ads.com/2''],
             matched = [''https://ads.com/2'']\<rparr>;
       this = (initial :: string CrawlQueue)\<lparr>queue := Some q, regex := ''ads''\<rparr>;
       test = (\<lambda>rx url. take (length rx) url = rx);
       items = (case renderContent test this of QueueList xs f \<Rightarrow> xs | _ \<Rightarrow> [])
   in length items = 2 \<and>
      \<not> shown_matched (items ! 0) \<and> marker_class (items ! 0) = [] \<and>
      shown_matched (items ! 1) \<and> marker_class (items ! 1) = ''text-red-600''"
proof -
  define q where "q = \<lparr>total = 2, results = [''https://ads.com/1'', ''https://ads.com/2''],
      matched = [''https://ads.com/2'']\<rparr>"
  define this where "this = (initial :: string CrawlQueue)\<lparr>queue := Some q, regex := ''ads''\<rparr>"
  define test where "test = (\<lambda>rx url :: string. take (length rx) url = rx)"
  define items where "items = map (render_item test this q) (enumerate 0 (results q))"
  have r: "renderContent test this = QueueList items EndOfQueue"
    by (simp add: renderContent_def this_def q_def items_def)
  have qu: "queue this = Some q"
    by (simp add: this_def)
  have l: "length items = 2" "0 < length items" "1 < length items"
    by (simp_all add: items_def q_def)
  from highlight_by_membership[OF qu r l(2)] highlight_by_membership[OF qu r l(3)]
  have "\<not> shown_matched (items ! 0) \<and> marker_class (items ! 0) \<noteq> ''text-red-600'' \<and>
        shown_matched (items ! 1) \<and> marker_class (items ! 1) = ''text-red-600''"
    by (simp add: q_def)
  moreover have "marker_class (items ! 0) = []"
    by (simp add: items_def q_def render_item_def isMatch_def enumerate_eq_zip upt_rec)
  ultimately show ?thesis
    using l(1) r
    unfolding Let_def q_def[symmetric] this_def[symmetric] test_def[symmetric]
    by simp
qed

subsection \<open>Exclusion patterns\<close>

text \<open>
  C6. \<open>isExcluded\<close> answers true exactly when at least one of the compiled exclusion
  patterns matches the URL, and two components whose pattern arrays hold the same
  patterns, in whatever order, give the same answer.
\<close>

theorem isExcluded_any_pattern:
  "(isExcluded test this url \<longleftrightarrow> (\<exists>rx\<in>set (exclusionsRx this). test rx url)) \<and>
   (set (exclusionsRx this') = set (exclusionsRx this) \<longrightarrow>
      isExcluded test this' url = isExcluded test this url)"
  by (simp add: isExcluded_def isExcluded_loop_iff)

theorem isExcluded_any_pattern_witness:
  "let test = (\<lambda>rx url. take (length rx) url = rx);
       this = (initial :: string CrawlQueue)\<lparr>exclusionsRx := [''https://ads.'', ''https://cdn.'']\<rparr>;
       this' = (initial :: string CrawlQueue)\<lparr>exclusionsRx := [''https://cdn.'', ''https://ads.'']\<rparr>
   in isExcluded test this ''https://ads.example.com/x'' \<and>
      isExcluded test this' ''https://ads.example.com/x'' \<and>
      \<not> isExcluded test this ''https://example.com/x'' \<and>
      \<not> isExcluded test this' ''https://example.com/x''"
proof -
  define test where "test = (\<lambda>rx url :: string. take (length rx) url = rx)"
  define this where
    "this = (initial :: string CrawlQueue)\<lparr>exclusionsRx := [''https://ads.'', ''https://cdn.'']\<rparr>"
  define this' where
    "this' = (initial :: string CrawlQueue)\<lparr>exclusionsRx := [''https://cdn.'', ''https://ads.'']\<rparr>"
  have s: "set (exclusionsRx this') = set (exclusionsRx this)"
    by (auto simp: this_def this'_def)
  have a: "\<exists>rx\<in>set (exclusionsRx this). test rx ''https://ads.example.com/x''"
    by (simp add: this_def test_def)
  have b: "\<not> (\<exists>rx\<in>set (exclusionsRx this). test rx ''https://example.com/x'')"
    by (simp add: this_def test_def)
  from isExcluded_any_pattern[of test this "''https://ads.example.com/x''" this']
    isExcluded_any_pattern[of test this "''https://example.com/x''" this'] s a b
  have "isExcluded test this ''https://ads.example.com/x'' \<and>
      isExcluded test this' ''https://ads.example.com/x'' \<and>
      \<not> isExcluded test this ''https://example.com/x'' \<and>
      \<not> isExcluded test this' ''https://example.com/x''"
    by simp
  then show ?thesis
    unfolding Let_def test_def this_def this'_def .
qed

text \<open>
  C8. When \<open>exclusions\<close> has changed, \<open>updated\<close> compiles all its patterns or none:
  if some pattern does not compile, the call ends with the SyntaxError of the first
  such pattern and the component, \<open>exclusionsRx\<close> included, is as before; if all
  compile, \<open>exclusionsRx\<close> holds the compiled pattern of each entry, in order.
\<close>

theorem updated_all_or_nothing:
  assumes "''exclusions'' \<in> set changedProperties" and "exclusions this = Some xs"
  shows "(\<forall>bad. find (\<lambda>x. compile x = None) xs = Some bad \<longrightarrow>
            updated compile changedProperties this = (this, Some (SyntaxError bad))) \<and>
         (find (\<lambda>x. compile x = None) xs = None \<longrightarrow>
            (\<exists>rxs. updated compile changedProperties this = (this\<lparr>exclusionsRx := rxs\<rparr>, None) \<and>
                   map Some rxs = map compile xs))"
proof (intro conjI allI impI)
  fix bad assume "find (\<lambda>x. compile x = None) xs = Some bad"
  from map_RegExp_find_Some[OF this] assms
  show "updated compile changedProperties this = (this, Some (SyntaxError bad))"
    by (simp add: updated_def)
next
  assume "find (\<lambda>x. compile x = None) xs = None"
  from map_RegExp_find_None[OF this] obtain rxs
    where "map_RegExp compile xs = Inr rxs" "map Some rxs = map compile xs" by blast
  with assms
  show "\<exists>rxs. updated compile changedProperties this = (this\<lparr>exclusionsRx := rxs\<rparr>, None) \<and>
              map Some rxs = map compile xs"
    by (intro exI[of _ rxs]) (simp add: updated_def)
qed

text \<open>
  A compiler that refuses the patterns \<open>(\<close> and \<open>[\<close>: the set \<open>a\<close>, \<open>(\<close>, \<open>b\<close>,
  \<open>[\<close> is refused for \<open>(\<close> and the patterns installed before stay; the set \<open>a\<close>,
  \<open>b\<close> is installed.
\<close>

theorem updated_all_or_nothing_witness:
  "let compile = (\<lambda>x. if x = ''('' \<or> x = ''['' then None else Some x);
       this = (initial :: string CrawlQueue)\<lparr>exclusionsRx := [''old'']\<rparr>
   in updated compile [''exclusions''] (this\<lparr>exclusions := Some [''a'', ''('', ''b'', ''['']\<rparr>) =
        (this\<lparr>exclusions := Some [''a'', ''('', ''b'', ''['']\<rparr>, Some (SyntaxError ''('')) \<and>
      updated compile [''exclusions''] (this\<lparr>exclusions := Some [''a'', ''b'']\<rparr>) =
        (this\<lparr>exclusions := Some [''a'', ''b''], exclusionsRx := [''a'', ''b'']\<rparr>, None)"
proof -
  define compile where "compile = (\<lambda>x. if x = ''('' \<or> x = ''['' then None else Some x)"
  define this where "this = (initial :: string CrawlQueue)\<lparr>exclusionsRx := [''old'']\<rparr>"
  have k: "''exclusions'' \<in> set [''exclusions'']"
    by simp
  have bad: "exclusions (this\<lparr>exclusions := Some [''a'', ''('', ''b'', ''['']\<rparr>) = Some [''a'', ''('', ''b'', ''['']"
    and good: "exclusions (this\<lparr>exclusions := Some [''a'', ''b'']\<rparr>) = Some [''a'', ''b'']"
    by simp_all
  have fb: "find (\<lambda>x. compile x = None) [''a'', ''('', ''b'', ''[''] = Some ''(''"
    and fg: "find (\<lambda>x. compile x = None) [''a'', ''b''] = None"
    by (simp_all add: compile_def)
  from updated_all_or_nothing[OF k bad, of compile] fb
  have 1: "updated compile [''exclusions''] (this\<lparr>exclusions := Some [''a'', ''('', ''b'', ''['']\<rparr>) =
        (this\<lparr>exclusions := Some [''a'', ''('', ''b'', ''['']\<rparr>, Some (SyntaxError ''(''))"
    by simp
  from updated_all_or_nothing[OF k good, of compile] fg
  obtain rxs where u: "updated compile [''exclusions''] (this\<lparr>exclusions := Some [''a'', ''b'']\<rparr>) =
        (this\<lparr>exclusions := Some [''a'', ''b''], exclusionsRx := rxs\<rparr>, None)"
    and m: "map Some rxs = map compile [''a'', ''b'']"
    by auto
  from m have "rxs = [''a'', ''b'']"
    by (auto simp: compile_def)
  with u 1 show ?thesis
    unfolding Let_def compile_def[symmetric] this_def[symmetric] by simp
qed

subsection \<open>Pagination\<close>

text \<open>
  C7. Every query that \<open>getQueue\<close> sends asks for offset 0 and for as many entries
  as the page size of the moment; \<open>loadMore\<close> adds 50 to the page size; so the
  queries that \<open>n\<close> load-more actions send ask, in turn, for the first
  \<open>pageSize + 50\<close>, \<open>pageSize + 100\<close>, ..., \<open>pageSize + 50 * n\<close> entries of the queue.
\<close>

theorem loadMore_grows_window:
  "params (getQueue this) =
     [(''offset'', ''0''), (''count'', toString (pageSize this)), (''regex'', regex this)] \<and>
   pageSize (loadMore this) = pageSize this + 50 \<and>
   pageSize (el (run compile (replicate n LoadMore) w)) = pageSize (el w) + 50 * n \<and>
   map (params \<circ> fst) (inflight (run compile (replicate n LoadMore) w)) =
     map (params \<circ> fst) (inflight w) @
     map (\<lambda>k. [(''offset'', ''0''), (''count'', toString (pageSize (el w) + 50 * k)),
               (''regex'', regex (el w))])
       [1..<Suc n]"
proof -
  have "map (params \<circ> fst) (inflight (run compile (replicate n LoadMore) w)) =
     map (params \<circ> fst) (inflight w) @
     map (\<lambda>k. [(''offset'', ''0''), (''count'', toString (pageSize (el w) + 50 * k)),
               (''regex'', regex (el w))])
       [1..<Suc n]"
  proof (induction n)
    case 0
    show ?case by (simp add: run_def)
  next
    case (Suc n)
    have "replicate (Suc n) LoadMore = replicate n LoadMore @ [LoadMore]"
      by (simp add: replicate_append_same)
    then have r: "run compile (replicate (Suc n) LoadMore) w
        = step compile LoadMore (run compile (replicate n LoadMore) w)"
      by (simp only: run_snoc)
    have "params (getQueue (el (step compile LoadMore (run compile (replicate n LoadMore) w)))) =
       [(''offset'', ''0''), (''count'', toString (pageSize (el w) + 50 * Suc n)),
        (''regex'', regex (el w))]"
      by (simp add: getQueue_def step_LoadMore_parts run_LoadMore_fields ac_simps del: step.simps)
    with Suc show ?case
      unfolding r by (simp add: step_LoadMore_parts(3) del: step.simps)
  qed
  then show ?thesis
    by (simp add: run_LoadMore_fields) (simp add: getQueue_def loadMore_def)
qed

text \<open>From the initial page size of 50, two load-more actions ask for 100 and for 150.\<close>

theorem loadMore_grows_window_witness:
  "pageSize (el (run Some (replicate 2 LoadMore) (start :: string World))) = 150 \<and>
   map (params \<circ> fst) (inflight (run Some (replicate 2 LoadMore) (start :: string World))) =
     [[(''offset'', ''0''), (''count'', ''100''), (''regex'', '''')],
      [(''offset'', ''0''), (''count'', ''150''), (''regex'', '''')]]"
proof -
  have u: "[1..<Suc 2] = [1, 2]"
    by (simp add: upt_rec)
  have s: "pageSize (el (start :: string World)) = 50" "regex (el (start :: string World)) = []"
    "inflight (start :: string World) = []"
    by (simp_all add: start_def initial_def)
  show ?thesis
    using loadMore_grows_window[of "el (start :: string World)" Some 2 start]
    unfolding u s by simp (simp add: toString.simps)
qed

subsection \<open>The matched set of the store\<close>

text \<open>
  C9. For a known crawl and a non-empty pattern that compiles, \<open>snapshot\<close> answers,
  and the \<open>matched\<close> list of its answer holds the URLs of the whole queue that match
  the pattern: it is the same for every offset and count, and all its members are
  queued URLs of the crawl.
\<close>

theorem snapshot_matched_global:
  assumes "store cid = Some urls" and "pat \<noteq> []" and "compile pat = Some rx"
  shows "\<exists>s s'. snapshot compile test store cid offset cnt pat = Inr s \<and>
                snapshot compile test store cid offset' cnt' pat = Inr s' \<and>
                matched s = matched s' \<and>
                matched s = filter (test rx) urls \<and>
                set (matched s) = {u \<in> set urls. test rx u} \<and>
                set (matched s) \<subseteq> set urls"
  using assms by (auto simp: snapshot_def)

text \<open>
  The scenario of the spec, with patterns read as prefixes: three URLs queued, the
  pattern matches the third, outside the page of two; the counts 10 and 1000 give
  the same \<open>matched\<close>.
\<close>

theorem snapshot_matched_global_witness:
  "let store = (\<lambda>cid. if cid = ''c1''
                  then Some [''https://a.com'', ''https://b.com'', ''https://ads.com/1'']
                  else None);
       test = (\<lambda>rx url. take (length rx) url = rx)
   in snapshot Some test store ''c1'' 0 2 ''https://ads'' =
        Inr \<lparr>total = 3, results = [''https://a.com'', ''https://b.com''],
             matched = [''https://ads.com/1'']\<rparr> \<and>
      map_sum id matched (snapshot Some test store ''c1'' 0 10 ''https://ads'') =
        map_sum id matched (snapshot Some test store ''c1'' 0 1000 ''https://ads'')"
proof -
  define store :: QueueStore where "store = (\<lambda>cid. if cid = ''c1''
      then Some [''https://a.com'', ''https://b.com'', ''https://ads.com/1''] else None)"
  define test where "test = (\<lambda>rx url :: string. take (length rx) url = rx)"
  have k: "store ''c1'' = Some [''https://a.com'', ''https://b.com'', ''https://ads.com/1'']"
    by (simp add: store_def)
  have p: "''https://ads'' \<noteq> []" and c: "Some ''https://ads'' = Some ''https://ads''"
    by simp_all
  have f: "\<not> test ''https://ads'' ''https://a.com''" "\<not> test ''https://ads'' ''https://b.com''"
    "test ''https://ads'' ''https://ads.com/1''"
    by (simp_all add: test_def)
  have v: "snapshot Some test store ''c1'' 0 n ''https://ads'' =
      Inr \<lparr>total = 3,
           results = take n [''https://a.com'', ''https://b.com'', ''https://ads.com/1''],
           matched = [''https://ads.com/1'']\<rparr>" for n
    by (simp add: snapshot_def k f)
  have t: "take 2 [''https://a.com'', ''https://b.com'', ''https://ads.com/1'']
      = [''https://a.com'', ''https://b.com'']"
    by simp
  have "snapshot Some test store ''c1'' 0 2 ''https://ads'' =
        Inr \<lparr>total = 3, results = [''https://a.com'', ''https://b.com''],
             matched = [''https://ads.com/1'']\<rparr> \<and>
      map_sum id matched (snapshot Some test store ''c1'' 0 10 ''https://ads'') =
        map_sum id matched (snapshot Some test store ''c1'' 0 1000 ''https://ads'')"
    using snapshot_matched_global[where compile = Some and store = store and test = test
      and offset = 0 and cnt = 10 and offset' = 0 and cnt' = 1000, OF k p c]
    unfolding v t by simp
  then show ?thesis
    unfolding Let_def store_def test_def .
qed

end
